theory Spec2Isabelle
  imports Main "HOL-Library.Word"
begin

section \<open>The contract ReFiInfraDAOFHE (contracts/ReFi\_Infra\_DAO.sol)\<close>

text \<open>
  The contract is embedded function by function. A Solidity call either returns or
  reverts; a revert discards every write of the call, so each entry point is a function
  from the storage before the call to \<open>error + state\<close>: \<open>Inl\<close> is the revert with its
  error, \<open>Inr\<close> the storage after the call. \<open>uint256\<close> is a 256-bit word, and the
  checked arithmetic of Solidity 0.8 (a revert with \<open>Panic\<close> on overflow) is written out.
  \<open>msg.sender\<close> and \<open>block.timestamp\<close> are explicit arguments.
\<close>

subsection \<open>Types\<close>

type_synonym address = "160 word"
type_synonym uint256 = "256 word"
type_synonym bytes32 = "256 word"
type_synonym bytes = "8 word list"

text \<open>\<open>euint32\<close> is a user-defined value type over \<open>bytes32\<close>: the ciphertext handle.\<close>

type_synonym euint32 = "256 word"

record DecryptionContext =
  batchId :: uint256
  stateHash :: bytes32
  processed :: bool

datatype event =
    OwnershipTransferred address address
  | ProviderAdded address
  | ProviderRemoved address
  | Paused address
  | Unpaused address
  | CooldownSecondsUpdated uint256 uint256
  | BatchOpened uint256
  | BatchClosed uint256
  | ContributionSubmitted address uint256 bytes32
  | UsageReported address uint256 bytes32
  | DecryptionRequested uint256 uint256
  | DecryptionCompleted uint256 uint256 uint256 uint256

text \<open>
  The eight custom errors of the contract, the \<open>Panic\<close> of checked arithmetic, the
  revert of \<open>FHE.checkSignatures\<close> on a proof it rejects, and the revert of a slice
  or \<open>abi.decode\<close> that reaches beyond the end of its buffer.
\<close>

datatype error =
    NotOwner
  | NotProvider
  | PausedError
  | CooldownActive
  | BatchNotOpen
  | ReplayDetected
  | StateMismatch
  | InvalidBatchId
  | Panic
  | InvalidSignatures
  | OutOfRange

text \<open>
  The storage of the contract, field by field. A Solidity mapping is a total function
  whose default is the zero value. \<open>events\<close> is the log of the events emitted so far; it
  is not storage, and is kept here so that a reverted call leaves it untouched too.
\<close>

record state =
  owner :: address
  isProvider :: "address \<Rightarrow> bool"
  paused :: bool
  cooldownSeconds :: uint256
  lastSubmissionTime :: "address \<Rightarrow> uint256"
  lastDecryptionRequestTime :: "address \<Rightarrow> uint256"
  currentBatchId :: uint256
  isBatchOpen :: "uint256 \<Rightarrow> bool"
  totalContributionsEncrypted :: "uint256 \<Rightarrow> euint32"
  totalUsageEncrypted :: "uint256 \<Rightarrow> euint32"
  decryptionContexts :: "uint256 \<Rightarrow> DecryptionContext"
  events :: "event list"

subsection \<open>The external capabilities\<close>

text \<open>
  The FHE library, the hash and the proof verifier are imported by the contract and are
  not part of it. They are parameters of the model: \<open>asEuint32\<close> is the trivial
  encryption \<open>FHE.asEuint32\<close>, \<open>isInitialized\<close> is \<open>FHE.isInitialized\<close>, \<open>fhe_add\<close>
  is \<open>FHE.add\<close> on handles, \<open>keccak256_encode\<close> is
  \<open>keccak256(abi.encode(cts, a))\<close>, \<open>this\<close> is \<open>address(this)\<close>, and
  \<open>checkSignatures\<close> tells whether \<open>FHE.checkSignatures\<close> returns (it reverts
  otherwise). The request id that \<open>FHE.requestDecryption\<close> returns is an argument of
  \<open>requestBatchSummaryDecryption\<close>.
\<close>

record fhe =
  asEuint32 :: "32 word \<Rightarrow> euint32"
  isInitialized :: "euint32 \<Rightarrow> bool"
  fhe_add :: "euint32 \<Rightarrow> euint32 \<Rightarrow> euint32"
  keccak256_encode :: "bytes32 list \<Rightarrow> address \<Rightarrow> bytes32"
  this :: address
  checkSignatures :: "uint256 \<Rightarrow> bytes \<Rightarrow> bytes \<Rightarrow> bool"

text \<open>Checked addition on \<open>uint256\<close>.\<close>

definition checked_add :: "uint256 \<Rightarrow> uint256 \<Rightarrow> error + uint256" where
  "checked_add a b = (if unat a + unat b < 2 ^ 256 then Inr (a + b) else Inl Panic)"

text \<open>\<open>abi.decode(bs, uint256)\<close> on a 32-byte slice: the big-endian value.\<close>

definition decode_uint256 :: "bytes \<Rightarrow> uint256" where
  "decode_uint256 bs = foldl (\<lambda>acc b. acc * 256 + ucast b) 0 bs"

subsection \<open>Constructor and access control\<close>

definition constructor :: "address \<Rightarrow> state" where
  "constructor sender =
     \<lparr> owner = sender,
       isProvider = (\<lambda>_. False)(sender := True),
       paused = False,
       cooldownSeconds = 60,
       lastSubmissionTime = (\<lambda>_. 0),
       lastDecryptionRequestTime = (\<lambda>_. 0),
       currentBatchId = 1,
       isBatchOpen = (\<lambda>_. False),
       totalContributionsEncrypted = (\<lambda>_. 0),
       totalUsageEncrypted = (\<lambda>_. 0),
       decryptionContexts = (\<lambda>_. \<lparr> batchId = 0, stateHash = 0, processed = False \<rparr>),
       events = [ProviderAdded sender] \<rparr>"

definition transferOwnership :: "address \<Rightarrow> address \<Rightarrow> state \<Rightarrow> error + state" where
  "transferOwnership sender newOwner s =
     (if sender \<noteq> owner s then Inl NotOwner
      else Inr (s\<lparr> owner := newOwner,
                   events := events s @ [OwnershipTransferred (owner s) newOwner] \<rparr>))"

definition addProvider :: "address \<Rightarrow> address \<Rightarrow> state \<Rightarrow> error + state" where
  "addProvider sender provider s =
     (if sender \<noteq> owner s then Inl NotOwner
      else if \<not> isProvider s provider
        then Inr (s\<lparr> isProvider := (isProvider s)(provider := True),
                     events := events s @ [ProviderAdded provider] \<rparr>)
        else Inr s)"

definition removeProvider :: "address \<Rightarrow> address \<Rightarrow> state \<Rightarrow> error + state" where
  "removeProvider sender provider s =
     (if sender \<noteq> owner s then Inl NotOwner
      else if isProvider s provider
        then Inr (s\<lparr> isProvider := (isProvider s)(provider := False),
                     events := events s @ [ProviderRemoved provider] \<rparr>)
        else Inr s)"

definition pause :: "address \<Rightarrow> state \<Rightarrow> error + state" where
  "pause sender s =
     (if sender \<noteq> owner s then Inl NotOwner
      else if paused s then Inl PausedError
      else Inr (s\<lparr> paused := True, events := events s @ [Paused sender] \<rparr>))"

definition unpause :: "address \<Rightarrow> state \<Rightarrow> error + state" where
  "unpause sender s =
     (if sender \<noteq> owner s then Inl NotOwner
      else if \<not> paused s then Inl PausedError
      else Inr (s\<lparr> paused := False, events := events s @ [Unpaused sender] \<rparr>))"

definition setCooldownSeconds :: "address \<Rightarrow> uint256 \<Rightarrow> state \<Rightarrow> error + state" where
  "setCooldownSeconds sender newCooldownSeconds s =
     (if sender \<noteq> owner s then Inl NotOwner
      else Inr (s\<lparr> cooldownSeconds := newCooldownSeconds,
                   events := events s @
                     [CooldownSecondsUpdated (cooldownSeconds s) newCooldownSeconds] \<rparr>))"

subsection \<open>Batches\<close>

text \<open>
  \<open>openBatch\<close>: the modifiers run in the order written, \<open>onlyOwner\<close> then
  \<open>whenNotPaused\<close>; \<open>currentBatchId++\<close> is checked.
\<close>

definition openBatch :: "fhe \<Rightarrow> address \<Rightarrow> state \<Rightarrow> error + state" where
  "openBatch env sender s =
     (if sender \<noteq> owner s then Inl NotOwner
      else if paused s then Inl PausedError
      else case checked_add (currentBatchId s) 1 of
        Inl e \<Rightarrow> Inl e
      | Inr b \<Rightarrow>
          Inr (s\<lparr> currentBatchId := b,
                  isBatchOpen := (isBatchOpen s)(b := True),
                  totalContributionsEncrypted :=
                    (totalContributionsEncrypted s)(b := asEuint32 env 0),
                  totalUsageEncrypted := (totalUsageEncrypted s)(b := asEuint32 env 0),
                  events := events s @ [BatchOpened b] \<rparr>))"

definition closeBatch :: "address \<Rightarrow> uint256 \<Rightarrow> state \<Rightarrow> error + state" where
  "closeBatch sender b s =
     (if sender \<noteq> owner s then Inl NotOwner
      else if paused s then Inl PausedError
      else if \<not> isBatchOpen s b then Inl BatchNotOpen
      else Inr (s\<lparr> isBatchOpen := (isBatchOpen s)(b := False),
                   events := events s @ [BatchClosed b] \<rparr>))"

subsection \<open>Submissions\<close>

text \<open>
  \<open>_initIfNeeded(euint32 storage x)\<close> assigns through its storage reference; the value
  of the slot after the call is \<open>initIfNeeded\<close> of the value before.
\<close>

definition initIfNeeded :: "fhe \<Rightarrow> euint32 \<Rightarrow> euint32" where
  "initIfNeeded env x = (if \<not> isInitialized env x then asEuint32 env 0 else x)"

definition submitContribution ::
  "fhe \<Rightarrow> address \<Rightarrow> uint256 \<Rightarrow> uint256 \<Rightarrow> euint32 \<Rightarrow> state \<Rightarrow> error + state" where
  "submitContribution env sender now b encryptedAmount s =
     (if paused s then Inl PausedError
      else case checked_add (lastSubmissionTime s sender) (cooldownSeconds s) of
        Inl e \<Rightarrow> Inl e
      | Inr ready \<Rightarrow>
          if now < ready then Inl CooldownActive
          else if \<not> isBatchOpen s b then Inl BatchNotOpen
          else Inr (s\<lparr> totalContributionsEncrypted :=
                          (totalContributionsEncrypted s)
                            (b := fhe_add env
                                    (initIfNeeded env (totalContributionsEncrypted s b))
                                    encryptedAmount),
                        lastSubmissionTime := (lastSubmissionTime s)(sender := now),
                        events := events s @
                          [ContributionSubmitted sender b encryptedAmount] \<rparr>))"

definition reportUsage ::
  "fhe \<Rightarrow> address \<Rightarrow> uint256 \<Rightarrow> uint256 \<Rightarrow> euint32 \<Rightarrow> state \<Rightarrow> error + state" where
  "reportUsage env sender now b encryptedUsage s =
     (if \<not> isProvider s sender then Inl NotProvider
      else if paused s then Inl PausedError
      else case checked_add (lastSubmissionTime s sender) (cooldownSeconds s) of
        Inl e \<Rightarrow> Inl e
      | Inr ready \<Rightarrow>
          if now < ready then Inl CooldownActive
          else if \<not> isBatchOpen s b then Inl BatchNotOpen
          else Inr (s\<lparr> totalUsageEncrypted :=
                          (totalUsageEncrypted s)
                            (b := fhe_add env
                                    (initIfNeeded env (totalUsageEncrypted s b))
                                    encryptedUsage),
                        lastSubmissionTime := (lastSubmissionTime s)(sender := now),
                        events := events s @ [UsageReported sender b encryptedUsage] \<rparr>))"

subsection \<open>The decryption round trip\<close>

definition hashCiphertexts :: "fhe \<Rightarrow> bytes32 list \<Rightarrow> bytes32" where
  "hashCiphertexts env cts = keccak256_encode env cts (this env)"

text \<open>
  \<open>requestId\<close> is what \<open>FHE.requestDecryption\<close> returned for this call.
\<close>

definition requestBatchSummaryDecryption ::
  "fhe \<Rightarrow> uint256 \<Rightarrow> address \<Rightarrow> uint256 \<Rightarrow> uint256 \<Rightarrow> state \<Rightarrow> error + state" where
  "requestBatchSummaryDecryption env requestId sender now b s =
     (if paused s then Inl PausedError
      else case checked_add (lastDecryptionRequestTime s sender) (cooldownSeconds s) of
        Inl e \<Rightarrow> Inl e
      | Inr ready \<Rightarrow>
          if now < ready then Inl CooldownActive
          else if isBatchOpen s b then Inl BatchNotOpen
          else let contributions = totalContributionsEncrypted s b;
                   usage = totalUsageEncrypted s b
            in if \<not> isInitialized env contributions \<or> \<not> isInitialized env usage
               then Inl InvalidBatchId
               else Inr (s\<lparr> decryptionContexts :=
                               (decryptionContexts s)
                                 (requestId :=
                                    \<lparr> batchId = b,
                                      stateHash = hashCiphertexts env [contributions, usage],
                                      processed = False \<rparr>),
                             lastDecryptionRequestTime :=
                               (lastDecryptionRequestTime s)(sender := now),
                             events := events s @ [DecryptionRequested requestId b] \<rparr>))"

text \<open>
  \<open>myCallback\<close> is \<open>public\<close> and carries no modifier; \<open>sender\<close> is \<open>msg.sender\<close>,
  which the body never reads. The slices \<open>cleartexts[0:32]\<close> and \<open>cleartexts[32:64]\<close>
  are out of range on a buffer shorter than 64 bytes.
\<close>

definition myCallback ::
  "fhe \<Rightarrow> address \<Rightarrow> uint256 \<Rightarrow> bytes \<Rightarrow> bytes \<Rightarrow> state \<Rightarrow> error + state" where
  "myCallback env sender requestId cleartexts proof s =
     (if processed (decryptionContexts s requestId) then Inl ReplayDetected
      else let b = batchId (decryptionContexts s requestId);
               contributions = totalContributionsEncrypted s b;
               usage = totalUsageEncrypted s b;
               currentHash = hashCiphertexts env [contributions, usage]
        in if currentHash \<noteq> stateHash (decryptionContexts s requestId)
           then Inl StateMismatch
           else if \<not> checkSignatures env requestId cleartexts proof
           then Inl InvalidSignatures
           else if length cleartexts < 64 then Inl OutOfRange
           else Inr (s\<lparr> decryptionContexts :=
                           (decryptionContexts s)
                             (requestId := (decryptionContexts s requestId)
                                \<lparr> processed := True \<rparr>),
                         events := events s @
                           [DecryptionCompleted requestId b
                              (decode_uint256 (take 32 cleartexts))
                              (decode_uint256 (take 32 (drop 32 cleartexts)))] \<rparr>))"

subsection \<open>Transactions\<close>

datatype call =
    TransferOwnership address
  | AddProvider address
  | RemoveProvider address
  | Pause
  | Unpause
  | SetCooldownSeconds uint256
  | OpenBatch
  | CloseBatch uint256
  | SubmitContribution uint256 euint32
  | ReportUsage uint256 euint32
  | RequestBatchSummaryDecryption uint256 uint256
  | MyCallback uint256 bytes bytes

text \<open>
  A transaction is a caller, a block timestamp and a call.
  \<open>RequestBatchSummaryDecryption b requestId\<close> carries the id the oracle hands out.
\<close>

type_synonym tx = "address \<times> uint256 \<times> call"

fun exec :: "fhe \<Rightarrow> tx \<Rightarrow> state \<Rightarrow> error + state" where
  "exec env (sender, now, TransferOwnership a) s = transferOwnership sender a s"
| "exec env (sender, now, AddProvider a) s = addProvider sender a s"
| "exec env (sender, now, RemoveProvider a) s = removeProvider sender a s"
| "exec env (sender, now, Pause) s = pause sender s"
| "exec env (sender, now, Unpause) s = unpause sender s"
| "exec env (sender, now, SetCooldownSeconds n) s = setCooldownSeconds sender n s"
| "exec env (sender, now, OpenBatch) s = openBatch env sender s"
| "exec env (sender, now, CloseBatch b) s = closeBatch sender b s"
| "exec env (sender, now, SubmitContribution b x) s = submitContribution env sender now b x s"
| "exec env (sender, now, ReportUsage b x) s = reportUsage env sender now b x s"
| "exec env (sender, now, RequestBatchSummaryDecryption b requestId) s =
     requestBatchSummaryDecryption env requestId sender now b s"
| "exec env (sender, now, MyCallback requestId cleartexts proof) s =
     myCallback env sender requestId cleartexts proof s"

text \<open>A reverted transaction leaves the state as it was.\<close>

definition step :: "fhe \<Rightarrow> state \<Rightarrow> tx \<Rightarrow> state" where
  "step env s t = (case exec env t s of Inl _ \<Rightarrow> s | Inr s' \<Rightarrow> s')"

definition run :: "fhe \<Rightarrow> state \<Rightarrow> tx list \<Rightarrow> state" where
  "run env s ts = foldl (step env) s ts"

text \<open>The batch ids allocated so far, oldest first, read off the \<open>BatchOpened\<close> events.\<close>

fun opened_ids :: "event list \<Rightarrow> uint256 list" where
  "opened_ids [] = []"
| "opened_ids (BatchOpened b # es) = b # opened_ids es"
| "opened_ids (_ # es) = opened_ids es"

subsection \<open>A concrete instance of the external capabilities\<close>

text \<open>
  A deterministic stand-in used to evaluate the contract on concrete inputs: the handle
  of a trivial encryption of \<open>v\<close> is \<open>v + 1\<close>, a handle is initialised when it is not
  zero, the sum of two handles is their sum, the hash is a polynomial in the handles
  and the address, and a proof is accepted when it is not empty.
\<close>

definition mock_keccak :: "bytes32 list \<Rightarrow> address \<Rightarrow> bytes32" where
  "mock_keccak cts a = foldl (\<lambda>acc c. acc * 1000003 + c) (ucast a + 1) cts"

definition mock_fhe :: fhe where
  "mock_fhe =
     \<lparr> asEuint32 = (\<lambda>v. ucast v + 1),
       isInitialized = (\<lambda>x. x \<noteq> 0),
       fhe_add = (\<lambda>x y. x + y),
       keccak256_encode = mock_keccak,
       this = 4096,
       checkSignatures = (\<lambda>requestId cleartexts proof. proof \<noteq> []) \<rparr>"

text \<open>
  Two executions used as concrete inputs. In \<open>scenario_open\<close> address 1 deploys the
  contract and opens batch 2. In \<open>scenario_requested\<close> address 1 deploys and opens
  batch 2, address 5 contributes, address 1 closes the batch and address 5 requests
  the summary, for which the oracle hands out request id 7.
\<close>

definition scenario_open :: state where
  "scenario_open = run mock_fhe (constructor 1) [(1, 0, OpenBatch)]"

definition scenario_requested :: state where
  "scenario_requested =
     run mock_fhe (constructor 1)
       [(1, 100, OpenBatch), (5, 100, SubmitContribution 2 101), (1, 100, CloseBatch 2),
        (5, 100, RequestBatchSummaryDecryption 2 7)]"

definition scenario_closed :: state where
  "scenario_closed =
     run mock_fhe (constructor 1)
       [(1, 100, OpenBatch), (5, 100, SubmitContribution 2 101), (1, 100, CloseBatch 2)]"

subsection \<open>Predicates used in the proofs\<close>


text \<open>
  Three invariants. The ids in the \<open>BatchOpened\<close> events are 2, 3, ... up to the
  counter; every open batch has an id at most the counter; and a batch is closed for
  good when it is closed and its id is at most the counter.
\<close>

definition ids_consecutive :: "state \<Rightarrow> bool" where
  "ids_consecutive s =
     (map unat (opened_ids (events s)) = [2 ..< Suc (unat (currentBatchId s))]
      \<and> 1 \<le> unat (currentBatchId s))"

definition batches_bounded :: "state \<Rightarrow> bool" where
  "batches_bounded s = (\<forall>b. isBatchOpen s b \<longrightarrow> unat b \<le> unat (currentBatchId s))"

definition closed_for_good :: "uint256 \<Rightarrow> state \<Rightarrow> bool" where
  "closed_for_good b s = (\<not> isBatchOpen s b \<and> unat b \<le> unat (currentBatchId s))"



section \<open>Properties\<close>

subsection \<open>Evaluation and arithmetic helpers\<close>

lemmas eval_defs =
  run_def step_def constructor_def checked_add_def initIfNeeded_def
  hashCiphertexts_def mock_fhe_def mock_keccak_def
  pause_def unpause_def openBatch_def closeBatch_def submitContribution_def
  reportUsage_def requestBatchSummaryDecryption_def myCallback_def

lemma unat_checked_sum:
  fixes a b :: uint256
  assumes "unat a + unat b < 2 ^ 256"
  shows "unat (a + b) = unat a + unat b"
  using assms unat_add_lem [of a b] by simp

text \<open>\<open>submitContribution\<close> with the checked addition read as natural numbers.\<close>

lemma submitContribution_result:
  "submitContribution env sender now b x s =
     (if paused s then Inl PausedError
      else if 2 ^ 256 \<le> unat (lastSubmissionTime s sender) + unat (cooldownSeconds s)
        then Inl Panic
      else if unat now < unat (lastSubmissionTime s sender) + unat (cooldownSeconds s)
        then Inl CooldownActive
      else if \<not> isBatchOpen s b then Inl BatchNotOpen
      else Inr (s\<lparr> totalContributionsEncrypted :=
                      (totalContributionsEncrypted s)
                        (b := fhe_add env
                                (initIfNeeded env (totalContributionsEncrypted s b)) x),
                    lastSubmissionTime := (lastSubmissionTime s)(sender := now),
                    events := events s @ [ContributionSubmitted sender b x] \<rparr>))"
  by (simp add: submitContribution_def checked_add_def word_less_nat_alt unat_checked_sum
      not_le)

subsection \<open>Ownership transfer\<close>

text \<open>
  Claim C10. \<open>transferOwnership\<close>, called by the owner, succeeds, sets \<open>owner\<close> to the
  new owner and emits \<open>OwnershipTransferred\<close>; every storage field other than \<open>owner\<close>
  is as before. In particular \<open>isProvider\<close> is unchanged: the previous owner keeps
  the provider role it had, and the new owner gains none.
\<close>

theorem transferOwnership_changes_only_owner:
  assumes "sender = owner s"
  shows "\<exists>s'. transferOwnership sender newOwner s = Inr s'
           \<and> owner s' = newOwner
           \<and> events s' = events s @ [OwnershipTransferred sender newOwner]
           \<and> s'\<lparr> owner := owner s, events := events s \<rparr> = s
           \<and> isProvider s' = isProvider s"
  using assms by (simp add: transferOwnership_def)

text \<open>
  Right after deployment by address 1, a transfer to address 2: address 1 is still a
  provider, address 2 is not.
\<close>

theorem transferOwnership_changes_only_owner_witness:
  "(1 :: address) = owner (constructor 1)
   \<and> \<not> isl (transferOwnership 1 2 (constructor 1))
   \<and> owner (projr (transferOwnership 1 2 (constructor 1))) = 2
   \<and> isProvider (projr (transferOwnership 1 2 (constructor 1))) 1
   \<and> \<not> isProvider (projr (transferOwnership 1 2 (constructor 1))) 2"
  using transferOwnership_changes_only_owner [of 1 "constructor 1" 2]
  by (auto simp: constructor_def)

subsection \<open>Who may deliver a decryption result\<close>

text \<open>
  Claim C4 says that the callback rejects every caller other than the decryption
  oracle. The code has no such check: in \<open>scenario_requested\<close> the callback for the
  pending request 7 succeeds for caller 9 and for caller 10, and at most one of the two
  can be the oracle.
\<close>

theorem myCallback_caller_check_counterexample:
  "\<not> isl (myCallback mock_fhe 9 7 (replicate 64 0) [1] scenario_requested)
   \<and> \<not> isl (myCallback mock_fhe 10 7 (replicate 64 0) [1] scenario_requested)"
  by (simp add: scenario_requested_def eval_defs)

text \<open>
  Claim C4, amended. The callback does not depend on its caller: two callers get the
  same result on the same arguments and state. For any caller it succeeds exactly when
  the request is not yet processed, the hash of the current accumulator handles equals
  the stored one, \<open>FHE.checkSignatures\<close> accepts the cleartexts and the proof, and the
  cleartext buffer holds at least 64 bytes.
\<close>

theorem myCallback_ignores_caller:
  "myCallback env sender requestId cleartexts proof s
     = myCallback env sender' requestId cleartexts proof s
   \<and> (\<not> isl (myCallback env sender requestId cleartexts proof s)) =
     (\<not> processed (decryptionContexts s requestId)
      \<and> hashCiphertexts env
            [totalContributionsEncrypted s (batchId (decryptionContexts s requestId)),
             totalUsageEncrypted s (batchId (decryptionContexts s requestId))]
          = stateHash (decryptionContexts s requestId)
      \<and> checkSignatures env requestId cleartexts proof
      \<and> 64 \<le> length cleartexts)"
  by (simp add: myCallback_def Let_def)

theorem myCallback_ignores_caller_witness:
  "myCallback mock_fhe 9 7 (replicate 64 0) [1] scenario_requested
     = myCallback mock_fhe 10 7 (replicate 64 0) [1] scenario_requested
   \<and> \<not> isl (myCallback mock_fhe 9 7 (replicate 64 0) [1] scenario_requested)"
  using myCallback_ignores_caller
    [of mock_fhe 9 7 "replicate 64 0" "[1]" scenario_requested 10]
  by (simp add: scenario_requested_def eval_defs)

subsection \<open>Requesting a summary of an open batch\<close>

text \<open>
  Claim C5 says that a request on an open batch fails with the error for a batch that
  is still open whatever the caller's cooldown state. The code checks the cooldown
  first: in \<open>scenario_open\<close> batch 2 is open, and a request by address 5 at time 10,
  inside the cooldown of 60 seconds, fails with \<open>CooldownActive\<close>.
\<close>

theorem requestBatchSummaryDecryption_open_counterexample:
  "isBatchOpen scenario_open 2
   \<and> requestBatchSummaryDecryption mock_fhe 7 5 10 2 scenario_open = Inl CooldownActive"
  by (simp add: scenario_open_def eval_defs)

text \<open>
  Claim C5, amended. A request on an open batch always fails, for every caller. The
  error is the first that applies of: \<open>PausedError\<close> when the contract is paused,
  \<open>Panic\<close> when the caller's last request time plus the cooldown overflows,
  \<open>CooldownActive\<close> when the caller's request cooldown has not elapsed, and otherwise
  \<open>BatchNotOpen\<close>, the error the contract uses for a batch that is still open.
\<close>

theorem requestBatchSummaryDecryption_open_fails:
  assumes "isBatchOpen s b"
  shows "requestBatchSummaryDecryption env requestId sender now b s =
     Inl (if paused s then PausedError
          else if 2 ^ 256
                    \<le> unat (lastDecryptionRequestTime s sender) + unat (cooldownSeconds s)
            then Panic
          else if now < lastDecryptionRequestTime s sender + cooldownSeconds s
            then CooldownActive
          else BatchNotOpen)"
  using assms by (simp add: requestBatchSummaryDecryption_def checked_add_def)

theorem requestBatchSummaryDecryption_open_fails_witness:
  "isBatchOpen scenario_open 2
   \<and> requestBatchSummaryDecryption mock_fhe 7 5 100 2 scenario_open = Inl BatchNotOpen"
  using requestBatchSummaryDecryption_open_fails [of scenario_open 2 mock_fhe 7 5 100]
  by (simp add: scenario_open_def eval_defs)

subsection \<open>The pause switch\<close>

text \<open>
  Claim C6 says that while the contract is paused all six operations fail with the
  pause error. Pause \<open>scenario_requested\<close>: the callback for request 7 still succeeds
  and marks the request processed, and \<open>openBatch\<close> called by address 5, which is not
  the owner, fails with \<open>NotOwner\<close>.
\<close>

theorem paused_operations_counterexample:
  "paused (step mock_fhe scenario_requested (1, 100, Pause))
   \<and> \<not> processed (decryptionContexts (step mock_fhe scenario_requested (1, 100, Pause)) 7)
   \<and> \<not> isl (myCallback mock_fhe 9 7 (replicate 64 0) [1]
               (step mock_fhe scenario_requested (1, 100, Pause)))
   \<and> processed (decryptionContexts
        (step mock_fhe (step mock_fhe scenario_requested (1, 100, Pause))
           (9, 100, MyCallback 7 (replicate 64 0) [1])) 7)
   \<and> openBatch mock_fhe 5 (step mock_fhe scenario_requested (1, 100, Pause)) = Inl NotOwner"
  by (simp add: scenario_requested_def eval_defs)

text \<open>
  Claim C6, amended. While the contract is paused, \<open>openBatch\<close>, \<open>closeBatch\<close>,
  \<open>submitContribution\<close>, \<open>reportUsage\<close> and \<open>requestBatchSummaryDecryption\<close> all fail
  and leave the state unchanged. The error is \<open>PausedError\<close>, except that the role
  modifier written before \<open>whenNotPaused\<close> is checked first: \<open>openBatch\<close> and
  \<open>closeBatch\<close> fail with \<open>NotOwner\<close> for a caller other than the owner, and
  \<open>reportUsage\<close> with \<open>NotProvider\<close> for a caller that is not a provider. The callback
  carries no \<open>whenNotPaused\<close> and is not part of this statement.
\<close>

theorem paused_operations_revert:
  assumes "paused s"
  shows "openBatch env sender s = Inl (if sender \<noteq> owner s then NotOwner else PausedError)
    \<and> closeBatch sender b s = Inl (if sender \<noteq> owner s then NotOwner else PausedError)
    \<and> submitContribution env sender now b x s = Inl PausedError
    \<and> reportUsage env sender now b x s
        = Inl (if \<not> isProvider s sender then NotProvider else PausedError)
    \<and> requestBatchSummaryDecryption env requestId sender now b s = Inl PausedError
    \<and> step env s (sender, now, OpenBatch) = s
    \<and> step env s (sender, now, CloseBatch b) = s
    \<and> step env s (sender, now, SubmitContribution b x) = s
    \<and> step env s (sender, now, ReportUsage b x) = s
    \<and> step env s (sender, now, RequestBatchSummaryDecryption b requestId) = s"
  using assms
  by (simp add: openBatch_def closeBatch_def submitContribution_def reportUsage_def
      requestBatchSummaryDecryption_def step_def)

theorem paused_operations_revert_witness:
  "paused (step mock_fhe scenario_open (1, 100, Pause))
   \<and> openBatch mock_fhe 1 (step mock_fhe scenario_open (1, 100, Pause)) = Inl PausedError
   \<and> closeBatch 1 2 (step mock_fhe scenario_open (1, 100, Pause)) = Inl PausedError
   \<and> submitContribution mock_fhe 5 100 2 101 (step mock_fhe scenario_open (1, 100, Pause))
       = Inl PausedError
   \<and> reportUsage mock_fhe 1 100 2 101 (step mock_fhe scenario_open (1, 100, Pause))
       = Inl PausedError
   \<and> requestBatchSummaryDecryption mock_fhe 7 5 100 2
        (step mock_fhe scenario_open (1, 100, Pause)) = Inl PausedError"
  using paused_operations_revert
      [of "step mock_fhe scenario_open (1, 100, Pause)" mock_fhe 1 2 100 101 7]
    paused_operations_revert
      [of "step mock_fhe scenario_open (1, 100, Pause)" mock_fhe 5 2 100 101 7]
  by (simp add: scenario_open_def eval_defs)

subsection \<open>Contributions\<close>

text \<open>
  Claim C7 says that \<open>submitContribution\<close> succeeds exactly when the batch is open and
  the caller's cooldown has elapsed. Pause \<open>scenario_open\<close>: batch 2 is open and the
  cooldown of address 5 has elapsed at time 100, yet the call fails, with
  \<open>PausedError\<close>.
\<close>

theorem submitContribution_iff_counterexample:
  "isBatchOpen (step mock_fhe scenario_open (1, 100, Pause)) 2
   \<and> unat (lastSubmissionTime (step mock_fhe scenario_open (1, 100, Pause)) 5)
       + unat (cooldownSeconds (step mock_fhe scenario_open (1, 100, Pause)))
       \<le> unat (100 :: uint256)
   \<and> submitContribution mock_fhe 5 100 2 101 (step mock_fhe scenario_open (1, 100, Pause))
       = Inl PausedError"
  by (simp add: scenario_open_def eval_defs)

text \<open>
  Claim C7, amended. \<open>submitContribution\<close> succeeds exactly when the contract is not
  paused, the batch is open and the caller's cooldown has elapsed, the sum
  \<open>lastSubmissionTime + cooldownSeconds\<close> being taken in the natural numbers. When it
  fails, the error is the first that applies of \<open>PausedError\<close> (paused), \<open>Panic\<close> (the
  sum overflows \<open>uint256\<close>), \<open>CooldownActive\<close> (cooldown not elapsed) and
  \<open>BatchNotOpen\<close>, and the whole state, with the accumulator of the batch and the
  caller's \<open>lastSubmissionTime\<close>, is unchanged.
\<close>

theorem submitContribution_success_iff:
  "(\<not> isl (submitContribution env sender now b x s)) =
     (\<not> paused s \<and> isBatchOpen s b
      \<and> unat (lastSubmissionTime s sender) + unat (cooldownSeconds s) \<le> unat now)
   \<and> (isl (submitContribution env sender now b x s) \<longrightarrow>
        submitContribution env sender now b x s =
          Inl (if paused s then PausedError
               else if 2 ^ 256
                         \<le> unat (lastSubmissionTime s sender) + unat (cooldownSeconds s)
                 then Panic
               else if unat now
                         < unat (lastSubmissionTime s sender) + unat (cooldownSeconds s)
                 then CooldownActive
               else BatchNotOpen)
        \<and> step env s (sender, now, SubmitContribution b x) = s)"
proof -
  have bound: "unat now < 2 ^ 256"
    using unsigned_less [of now] by simp
  show ?thesis
    using bound by (auto simp: submitContribution_result step_def)
qed

theorem submitContribution_success_iff_witness:
  "\<not> isl (submitContribution mock_fhe 5 100 2 101 scenario_open)
   \<and> isl (submitContribution mock_fhe 5 30 2 101 scenario_open)
   \<and> submitContribution mock_fhe 5 30 2 101 scenario_open = Inl CooldownActive
   \<and> submitContribution mock_fhe 5 100 3 101 scenario_open = Inl BatchNotOpen
   \<and> step mock_fhe scenario_open (5, 30, SubmitContribution 2 101) = scenario_open"
  using submitContribution_success_iff [of mock_fhe 5 100 2 101 scenario_open]
    submitContribution_success_iff [of mock_fhe 5 30 2 101 scenario_open]
    submitContribution_success_iff [of mock_fhe 5 100 3 101 scenario_open]
  by (simp add: scenario_open_def eval_defs)

subsection \<open>The cooldown scenario\<close>

text \<open>
  Claim C9 says that, with a cooldown of 60 seconds, a principal who never submitted
  succeeds at time 0. In \<open>scenario_open\<close> the cooldown is 60, address 5 has never
  submitted and batch 2 is open; its submission at time 0 fails with \<open>CooldownActive\<close>,
  since \<open>0 < 0 + 60\<close>.
\<close>

theorem cooldown_scenario_counterexample:
  "cooldownSeconds scenario_open = 60 \<and> lastSubmissionTime scenario_open 5 = 0
   \<and> isBatchOpen scenario_open 2 \<and> \<not> paused scenario_open
   \<and> submitContribution mock_fhe 5 0 2 101 scenario_open = Inl CooldownActive"
  by (simp add: scenario_open_def eval_defs)

text \<open>
  Claim C9, amended. With a cooldown of 60 seconds, the contract not paused, and a
  principal \<open>P\<close> who never submitted, against an open batch: the submission at time 0
  fails with \<open>CooldownActive\<close>, the one at time 30 fails with \<open>CooldownActive\<close>, and the
  one at time 61 succeeds. A first submission at a time \<open>t\<close> of at least 60 succeeds;
  after it, the next one at \<open>t + 30\<close> fails with \<open>CooldownActive\<close> and the one at
  \<open>t + 61\<close> succeeds (\<open>t + 121\<close> within \<open>uint256\<close>).
\<close>

theorem cooldown_scenario:
  assumes "cooldownSeconds s = 60" and "lastSubmissionTime s P = 0"
    and "isBatchOpen s b" and "\<not> paused s"
  shows "submitContribution env P 0 b x s = Inl CooldownActive
    \<and> submitContribution env P 30 b x s = Inl CooldownActive
    \<and> \<not> isl (submitContribution env P 61 b x s)
    \<and> (60 \<le> unat t \<and> unat t + 121 < 2 ^ 256 \<longrightarrow>
         \<not> isl (submitContribution env P t b x s)
         \<and> submitContribution env P (t + 30) b y
             (projr (submitContribution env P t b x s)) = Inl CooldownActive
         \<and> \<not> isl (submitContribution env P (t + 61) b z
             (projr (submitContribution env P t b x s))))"
proof -
  have fixed: "submitContribution env P 0 b x s = Inl CooldownActive
    \<and> submitContribution env P 30 b x s = Inl CooldownActive
    \<and> \<not> isl (submitContribution env P 61 b x s)"
    using assms by (simp add: submitContribution_result)
  have shifted: "\<not> isl (submitContribution env P t b x s)
         \<and> submitContribution env P (t + 30) b y
             (projr (submitContribution env P t b x s)) = Inl CooldownActive
         \<and> \<not> isl (submitContribution env P (t + 61) b z
             (projr (submitContribution env P t b x s)))"
    if t: "60 \<le> unat t" "unat t + 121 < 2 ^ 256"
  proof -
    have t30: "unat (t + 30) = unat t + 30"
      using t unat_checked_sum [of t 30] by simp
    have t61: "unat (t + 61) = unat t + 61"
      using t unat_checked_sum [of t 61] by simp
    show ?thesis
      using assms t t30 t61 by (simp add: submitContribution_result)
  qed
  from fixed shifted show ?thesis by blast
qed

theorem cooldown_scenario_witness:
  "cooldownSeconds scenario_open = 60 \<and> lastSubmissionTime scenario_open 5 = 0
   \<and> isBatchOpen scenario_open 2 \<and> \<not> paused scenario_open
   \<and> (60 :: nat) \<le> unat (60 :: uint256) \<and> unat (60 :: uint256) + 121 < (2 :: nat) ^ 256
   \<and> \<not> isl (submitContribution mock_fhe 5 60 2 101 scenario_open)
   \<and> submitContribution mock_fhe 5 90 2 102
        (projr (submitContribution mock_fhe 5 60 2 101 scenario_open)) = Inl CooldownActive
   \<and> \<not> isl (submitContribution mock_fhe 5 121 2 103
        (projr (submitContribution mock_fhe 5 60 2 101 scenario_open)))"
  using cooldown_scenario
    [where s = scenario_open and P = 5 and b = 2 and t = 60 and env = mock_fhe
       and x = 101 and y = 102 and z = 103]
  by (simp add: scenario_open_def eval_defs)

subsection \<open>Executions\<close>

lemma run_Nil: "run env s [] = s"
  by (simp add: run_def)

lemma run_Cons: "run env s (t # ts) = run env (step env s t) ts"
  by (simp add: run_def)

text \<open>What a successful \<open>openBatch\<close> writes.\<close>

lemma openBatch_Inr:
  assumes "openBatch env sender s = Inr s'"
  shows "unat (currentBatchId s') = Suc (unat (currentBatchId s))
    \<and> events s' = events s @ [BatchOpened (currentBatchId s')]
    \<and> isBatchOpen s' = (isBatchOpen s)(currentBatchId s' := True)
    \<and> totalContributionsEncrypted s' = (totalContributionsEncrypted s)(currentBatchId s' := asEuint32 env 0)
    \<and> totalUsageEncrypted s' = (totalUsageEncrypted s)(currentBatchId s' := asEuint32 env 0)
    \<and> decryptionContexts s' = decryptionContexts s"
proof -
  have no_overflow: "unat (currentBatchId s) + unat (1 :: uint256) < 2 ^ 256"
    using assms by (simp add: openBatch_def checked_add_def split: if_splits)
  then have "unat (currentBatchId s + 1) = Suc (unat (currentBatchId s))"
    using unat_checked_sum [of "currentBatchId s" 1] by simp
  moreover have "s' = s\<lparr> currentBatchId := currentBatchId s + 1,
                  isBatchOpen := (isBatchOpen s)(currentBatchId s + 1 := True),
                  totalContributionsEncrypted :=
                    (totalContributionsEncrypted s)(currentBatchId s + 1 := asEuint32 env 0),
                  totalUsageEncrypted := (totalUsageEncrypted s)(currentBatchId s + 1 := asEuint32 env 0),
                  events := events s @ [BatchOpened (currentBatchId s + 1)] \<rparr>"
    using assms no_overflow by (simp add: openBatch_def checked_add_def split: if_splits)
  ultimately show ?thesis by simp
qed

lemma opened_ids_append: "opened_ids (es @ fs) = opened_ids es @ opened_ids fs"
  by (induction es rule: opened_ids.induct) simp_all

text \<open>Every call other than \<open>openBatch\<close> leaves the counter and the allocated ids alone.\<close>

lemma exec_ids:
  assumes "exec env t s = Inr s'" and "snd (snd t) \<noteq> OpenBatch"
  shows "currentBatchId s' = currentBatchId s \<and> opened_ids (events s') = opened_ids (events s)"
proof (cases t)
  case (fields sender now c)
  with assms show ?thesis
    by (cases c)
      (auto simp: transferOwnership_def addProvider_def removeProvider_def pause_def
        unpause_def setCooldownSeconds_def closeBatch_def submitContribution_def
        reportUsage_def requestBatchSummaryDecryption_def myCallback_def Let_def
        opened_ids_append split: if_splits sum.splits)
qed

lemma step_ids_consecutive:
  assumes "ids_consecutive s"
  shows "ids_consecutive (step env s t)"
proof (cases "exec env t s")
  case (Inl e)
  with assms show ?thesis by (simp add: step_def)
next
  case (Inr s')
  show ?thesis
  proof (cases "snd (snd t) = OpenBatch")
    case True
    then obtain sender now where t: "t = (sender, now, OpenBatch)"
      by (cases t) auto
    with Inr have "openBatch env sender s = Inr s'" by simp
    from openBatch_Inr [OF this] assms have "ids_consecutive s'"
      by (simp add: ids_consecutive_def opened_ids_append)
    with Inr show ?thesis by (simp add: step_def)
  next
    case False
    from exec_ids [OF Inr False] assms have "ids_consecutive s'"
      by (simp add: ids_consecutive_def)
    with Inr show ?thesis by (simp add: step_def)
  qed
qed

lemma run_ids_consecutive: "ids_consecutive s \<Longrightarrow> ids_consecutive (run env s ts)"
  by (induction ts arbitrary: s) (simp_all add: run_Nil run_Cons step_ids_consecutive)

lemma constructor_ids_consecutive: "ids_consecutive (constructor d)"
  by (simp add: ids_consecutive_def constructor_def)

lemma ids_consecutive_length:
  assumes "ids_consecutive s"
  shows "unat (currentBatchId s) = Suc (length (opened_ids (events s)))"
proof -
  have "map unat (opened_ids (events s)) = [2 ..< Suc (unat (currentBatchId s))]"
    using assms by (simp add: ids_consecutive_def)
  then have "length (map unat (opened_ids (events s)))
      = length [2 ..< Suc (unat (currentBatchId s))]"
    by (rule arg_cong)
  then have "length (opened_ids (events s)) = Suc (unat (currentBatchId s)) - 2"
    by (simp del: upt_Suc)
  moreover have "1 \<le> unat (currentBatchId s)"
    using assms by (simp add: ids_consecutive_def)
  ultimately show ?thesis by simp
qed

subsection \<open>Batch ids\<close>

text \<open>
  Claim C8. After any sequence of transactions on a freshly deployed contract, reverted
  ones and pause and unpause among them, the batch ids allocated so far are, in order,
  2, 3, 4, ... with no gap and no repetition, and the counter is the last of them. The
  next successful \<open>openBatch\<close> allocates the next number, greater than every id
  allocated before; on a fresh contract that is 2.
\<close>

theorem batch_ids_consecutive:
  "map unat (opened_ids (events (run env (constructor d) ts)))
     = [2 ..< 2 + length (opened_ids (events (run env (constructor d) ts)))]
   \<and> unat (currentBatchId (run env (constructor d) ts))
     = 1 + length (opened_ids (events (run env (constructor d) ts)))
   \<and> (openBatch env sender (run env (constructor d) ts) = Inr s' \<longrightarrow>
        unat (currentBatchId s') = 2 + length (opened_ids (events (run env (constructor d) ts)))
        \<and> events s' = events (run env (constructor d) ts) @ [BatchOpened (currentBatchId s')]
        \<and> isBatchOpen s' (currentBatchId s')
        \<and> (\<forall>b \<in> set (opened_ids (events (run env (constructor d) ts))). b < currentBatchId s'))"
proof -
  let ?s = "run env (constructor d) ts"
  have inv: "ids_consecutive ?s"
    by (rule run_ids_consecutive [OF constructor_ids_consecutive])
  have len: "unat (currentBatchId ?s) = Suc (length (opened_ids (events ?s)))"
    by (rule ids_consecutive_length [OF inv])
  have ids: "map unat (opened_ids (events ?s)) = [2 ..< 2 + length (opened_ids (events ?s))]"
    using inv len by (simp add: ids_consecutive_def del: upt_Suc)
  have nxt: "unat (currentBatchId s') = 2 + length (opened_ids (events ?s))
        \<and> events s' = events ?s @ [BatchOpened (currentBatchId s')]
        \<and> isBatchOpen s' (currentBatchId s')
        \<and> (\<forall>b \<in> set (opened_ids (events ?s)). b < currentBatchId s')"
    if ok: "openBatch env sender ?s = Inr s'"
  proof -
    note ob = openBatch_Inr [OF ok]
    have lt: "b < currentBatchId s'" if "b \<in> set (opened_ids (events ?s))" for b
    proof -
      from that have "unat b \<in> set (map unat (opened_ids (events ?s)))" by simp
      with ids have "unat b < 2 + length (opened_ids (events ?s))"
        by (simp del: upt_Suc)
      with ob len show ?thesis by (simp add: word_less_nat_alt)
    qed
    from ob len lt show ?thesis by simp
  qed
  from ids len nxt show ?thesis by simp
qed

text \<open>
  Two opens with a pause, a reverted open and an unpause between them allocate 2 and 3,
  and the next open allocates 4; the first open of a fresh contract allocates 2.
\<close>

theorem batch_ids_consecutive_witness:
  "opened_ids (events (run mock_fhe (constructor 1)
       [(1, 0, OpenBatch), (1, 0, Pause), (1, 0, OpenBatch), (1, 0, Unpause), (1, 0, OpenBatch)]))
     = [2, 3]
   \<and> \<not> isl (openBatch mock_fhe 1 (run mock_fhe (constructor 1)
       [(1, 0, OpenBatch), (1, 0, Pause), (1, 0, OpenBatch), (1, 0, Unpause), (1, 0, OpenBatch)]))
   \<and> currentBatchId (projr (openBatch mock_fhe 1 (run mock_fhe (constructor 1)
       [(1, 0, OpenBatch), (1, 0, Pause), (1, 0, OpenBatch), (1, 0, Unpause), (1, 0, OpenBatch)]))) = 4
   \<and> \<not> isl (openBatch mock_fhe 1 (run mock_fhe (constructor 1) []))
   \<and> currentBatchId (projr (openBatch mock_fhe 1 (run mock_fhe (constructor 1) []))) = 2"
  using batch_ids_consecutive [of mock_fhe 1 "[(1, 0, OpenBatch), (1, 0, Pause), (1, 0, OpenBatch), (1, 0, Unpause), (1, 0, OpenBatch)]" 1
      "projr (openBatch mock_fhe 1 (run mock_fhe (constructor 1)
       [(1, 0, OpenBatch), (1, 0, Pause), (1, 0, OpenBatch), (1, 0, Unpause), (1, 0, OpenBatch)]))"]
    batch_ids_consecutive [of mock_fhe 1 "[]" 1 "projr (openBatch mock_fhe 1 (run mock_fhe (constructor 1) []))"]
  by (simp add: eval_defs)

subsection \<open>Closed batches\<close>

text \<open>
  A call other than \<open>openBatch\<close> opens no batch and writes no accumulator of a batch
  that is not open.
\<close>

lemma exec_frame:
  assumes "exec env t s = Inr s'" and "snd (snd t) \<noteq> OpenBatch"
  shows "currentBatchId s' = currentBatchId s
    \<and> (isBatchOpen s' b \<longrightarrow> isBatchOpen s b)
    \<and> (\<not> isBatchOpen s b \<longrightarrow>
          totalContributionsEncrypted s' b = totalContributionsEncrypted s b
          \<and> totalUsageEncrypted s' b = totalUsageEncrypted s b)"
proof (cases t)
  case (fields sender now c)
  with assms show ?thesis
    by (cases c)
      (auto simp: transferOwnership_def addProvider_def removeProvider_def pause_def
        unpause_def setCooldownSeconds_def closeBatch_def submitContribution_def
        reportUsage_def requestBatchSummaryDecryption_def myCallback_def Let_def
        split: if_splits sum.splits)
qed

lemma step_batches_bounded:
  assumes "batches_bounded s"
  shows "batches_bounded (step env s t)"
proof (cases "exec env t s")
  case (Inl e)
  with assms show ?thesis by (simp add: step_def)
next
  case (Inr s')
  show ?thesis
  proof (cases "snd (snd t) = OpenBatch")
    case True
    then obtain sender now where "t = (sender, now, OpenBatch)"
      by (cases t) auto
    with Inr have "openBatch env sender s = Inr s'" by simp
    from openBatch_Inr [OF this] assms have "batches_bounded s'"
      by (auto simp: batches_bounded_def le_Suc_eq)
    with Inr show ?thesis by (simp add: step_def)
  next
    case False
    from exec_frame [OF Inr False] assms have "batches_bounded s'"
      by (auto simp: batches_bounded_def)
    with Inr show ?thesis by (simp add: step_def)
  qed
qed

lemma run_batches_bounded: "batches_bounded s \<Longrightarrow> batches_bounded (run env s ts)"
  by (induction ts arbitrary: s) (simp_all add: run_Nil run_Cons step_batches_bounded)

lemma constructor_batches_bounded: "batches_bounded (constructor d)"
  by (simp add: batches_bounded_def constructor_def)

lemma step_closed_for_good:
  assumes "closed_for_good b s"
  shows "closed_for_good b (step env s t)
    \<and> totalContributionsEncrypted (step env s t) b = totalContributionsEncrypted s b
    \<and> totalUsageEncrypted (step env s t) b = totalUsageEncrypted s b"
proof (cases "exec env t s")
  case (Inl e)
  with assms show ?thesis by (simp add: step_def)
next
  case (Inr s')
  show ?thesis
  proof (cases "snd (snd t) = OpenBatch")
    case True
    then obtain sender now where "t = (sender, now, OpenBatch)"
      by (cases t) auto
    with Inr have "openBatch env sender s = Inr s'" by simp
    note ob = openBatch_Inr [OF this]
    from ob assms have "currentBatchId s' \<noteq> b"
      by (auto simp: closed_for_good_def)
    with ob assms have "closed_for_good b s'
      \<and> totalContributionsEncrypted s' b = totalContributionsEncrypted s b
      \<and> totalUsageEncrypted s' b = totalUsageEncrypted s b"
      by (simp add: closed_for_good_def)
    with Inr show ?thesis by (simp add: step_def)
  next
    case False
    from exec_frame [OF Inr False, of b] assms have "closed_for_good b s'
      \<and> totalContributionsEncrypted s' b = totalContributionsEncrypted s b
      \<and> totalUsageEncrypted s' b = totalUsageEncrypted s b"
      by (auto simp: closed_for_good_def)
    with Inr show ?thesis by (simp add: step_def)
  qed
qed

lemma run_closed_for_good:
  "closed_for_good b s \<Longrightarrow>
     closed_for_good b (run env s ts)
     \<and> totalContributionsEncrypted (run env s ts) b = totalContributionsEncrypted s b
     \<and> totalUsageEncrypted (run env s ts) b = totalUsageEncrypted s b"
proof (induction ts arbitrary: s)
  case Nil
  then show ?case by (simp add: run_Nil)
next
  case (Cons t ts)
  from step_closed_for_good [OF Cons.prems, of env t] Cons.IH [of "step env s t"]
  show ?case by (simp add: run_Cons)
qed

text \<open>
  Claim C3. Let \<open>closeBatch b\<close> succeed in a state reached from deployment. Then after
  any further sequence of transactions, by any callers at any times, batch \<open>b\<close> is
  still closed, \<open>submitContribution\<close> and \<open>reportUsage\<close> on \<open>b\<close> fail for every
  caller, time and amount, and both accumulators of \<open>b\<close> hold the handles they held at
  the close.
\<close>

theorem closed_batch_never_reopens:
  assumes "closeBatch sender b (run env (constructor d) ts) = Inr s1"
  shows "\<not> isBatchOpen (run env s1 ts') b
    \<and> isl (submitContribution env c now b x (run env s1 ts'))
    \<and> isl (reportUsage env c now b x (run env s1 ts'))
    \<and> totalContributionsEncrypted (run env s1 ts') b = totalContributionsEncrypted s1 b
    \<and> totalUsageEncrypted (run env s1 ts') b = totalUsageEncrypted s1 b"
proof -
  let ?s0 = "run env (constructor d) ts"
  have "batches_bounded ?s0"
    by (rule run_batches_bounded [OF constructor_batches_bounded])
  moreover have "isBatchOpen ?s0 b" and "currentBatchId s1 = currentBatchId ?s0"
    and "\<not> isBatchOpen s1 b"
    using assms by (auto simp: closeBatch_def split: if_splits)
  ultimately have "closed_for_good b s1"
    by (simp add: closed_for_good_def batches_bounded_def)
  from run_closed_for_good [OF this, of env ts']
  show ?thesis
    by (simp add: closed_for_good_def submitContribution_def reportUsage_def
        split: sum.splits)
qed

theorem closed_batch_never_reopens_witness:
  "closeBatch 1 2
       (run mock_fhe (constructor 1) [(1, 100, OpenBatch), (5, 100, SubmitContribution 2 101)])
     = Inr scenario_closed
   \<and> submitContribution mock_fhe 5 500 2 101
       (run mock_fhe scenario_closed [(1, 200, OpenBatch), (5, 300, SubmitContribution 3 101)])
     = Inl BatchNotOpen
   \<and> isBatchOpen
       (run mock_fhe scenario_closed [(1, 200, OpenBatch), (5, 300, SubmitContribution 3 101)]) 3"
  using closed_batch_never_reopens
    [of 1 2 mock_fhe 1 "[(1, 100, OpenBatch), (5, 100, SubmitContribution 2 101)]"
      scenario_closed "[(1, 200, OpenBatch), (5, 300, SubmitContribution 3 101)]" 5 500 101]
  by (simp add: scenario_closed_def eval_defs)

subsection \<open>Replay protection\<close>






subsection \<open>The state hash\<close>












end
